theory Spec2Isabelle
  imports Main
begin

text \<open>
  A model of \<open>resumep.py\<close>, a Streamlit page that reads the text of uploaded PDF resumes,
  asks a language model for a Markdown table of the candidates, and tries to show the
  answer as a data frame. The model covers the two helper functions, the extraction loop,
  the conversion of the answer to a data frame, and what the page shows from the test of
  \<open>uploaded_files\<close> on. The configuration of the API key and of the language model, the
  title and the side bar are left out.
\<close>

section \<open>Python strings\<close>

text \<open>
  A Python \<open>str\<close> is a sequence of Unicode code points, and the operations the program
  uses (\<open>strip\<close>, \<open>split\<close>, \<open>join\<close>, concatenation) work code point by code point. A
  \<open>str\<close> is therefore modelled as the list of its code points. \<open>S\<close> reads a literal.
\<close>

type_synonym str = "nat list"

abbreviation S :: "string \<Rightarrow> str" where
  "S cs \<equiv> map of_char cs"

text \<open>
  \<open>str.isspace\<close> on one code point: the characters \<open>str.strip()\<close> removes. These are
  U+0009..U+000D, U+001C..U+0020, U+0085, U+00A0, U+1680, U+2000..U+200A, U+2028, U+2029,
  U+202F, U+205F and U+3000.
\<close>

definition isspace :: "nat \<Rightarrow> bool" where
  "isspace c \<longleftrightarrow>
     (9 \<le> c \<and> c \<le> 13) \<or> (28 \<le> c \<and> c \<le> 32) \<or> c = 133 \<or> c = 160 \<or> c = 5760 \<or>
     (8192 \<le> c \<and> c \<le> 8202) \<or> c = 8232 \<or> c = 8233 \<or> c = 8239 \<or> c = 8287 \<or> c = 12288"

text \<open>
  \<open>s.strip()\<close> and \<open>s.strip(chars)\<close> remove, from both ends, the longest run of characters
  that are whitespace, respectively that occur in \<open>chars\<close>.
\<close>

definition strip_where :: "(nat \<Rightarrow> bool) \<Rightarrow> str \<Rightarrow> str" where
  "strip_where p s = rev (dropWhile p (rev (dropWhile p s)))"

definition strip :: "str \<Rightarrow> str" where
  "strip s = strip_where isspace s"

definition strip_chars :: "str \<Rightarrow> str \<Rightarrow> str" where
  "strip_chars chars s = strip_where (\<lambda>c. c \<in> set chars) s"

text \<open>
  \<open>s.split(sep)\<close> for a separator of one character, which is how the program calls it
  (\<open>split('\n')\<close>, \<open>split('|')\<close>): the pieces between the occurrences of \<open>sep\<close>, empty
  pieces included; the empty string gives one empty piece. The result is never the empty
  list, so the first branch of the \<open>case\<close> is not taken.
\<close>

fun str_split :: "nat \<Rightarrow> str \<Rightarrow> str list" where
  "str_split sep [] = [[]]"
| "str_split sep (c # cs) =
     (if c = sep then [] # str_split sep cs
      else (case str_split sep cs of [] \<Rightarrow> [[c]] | w # ws \<Rightarrow> (c # w) # ws))"

text \<open>\<open>sep.join(xs)\<close>.\<close>

fun join :: "str \<Rightarrow> str list \<Rightarrow> str" where
  "join sep [] = []"
| "join sep [x] = x"
| "join sep (x # y # ys) = x @ sep @ join sep (y # ys)"

section \<open>The table constructor\<close>

text \<open>
  The program hands the parsed lists to \<open>pd.DataFrame(data, columns=header)\<close> (line 146
  of \<open>resumep.py\<close>), inside the \<open>try\<close> whose \<open>except\<close> branch reports that the output could
  not be converted. The constructor belongs to the pandas library; it is modelled by what
  it does with a list of lists of strings:
  \<^item> an empty \<open>data\<close> gives a frame with the given columns and no rows;
  \<^item> otherwise the rows are copied into an array as wide as the longest row, and the
    positions a shorter row does not fill hold \<open>None\<close>;
  \<^item> if the number of column names differs from that width, the constructor raises
    \<open>ValueError\<close> ("n columns passed, passed data had m columns").
  A cell of a frame is therefore a string or \<open>None\<close>. Column names may repeat in a
  frame; it is \<open>st.dataframe\<close>, when the frame is shown, that raises for them
  (\<open>DuplicateColumns\<close>).
\<close>

record table =
  columns :: "str list"
  rows :: "str option list list"

datatype error = IndexError | ValueError nat nat | DuplicateColumns

fun width :: "'a list list \<Rightarrow> nat" where
  "width [] = 0"
| "width (row # data) = max (length row) (width data)"

definition to_object_array :: "str list list \<Rightarrow> str option list list" where
  "to_object_array data =
     map (\<lambda>row. map Some row @ replicate (width data - length row) None) data"

definition DataFrame :: "str list list \<Rightarrow> str list \<Rightarrow> error + table" where
  "DataFrame data cols =
     (if data = [] then Inr \<lparr>columns = cols, rows = []\<rparr>
      else if length cols \<noteq> width data then Inl (ValueError (length cols) (width data))
      else Inr \<lparr>columns = cols, rows = to_object_array data\<rparr>)"

section \<open>Markdown table to data frame\<close>

text \<open>
  Lines 137 to 150 of \<open>resumep.py\<close>:
  \<^verbatim>\<open>
  lines = generated_content.strip().split('\n')
  header = [h.strip() for h in lines[0].strip('|').split('|')]
  data = []
  for line in lines[2:]: # Skip header and separator
      rows = [r.strip() for r in line.strip('|').split('|')]
      data.append(rows)
  df = pd.DataFrame(data, columns=header)
  \<close>
  \<open>cells\<close> is the expression both comprehensions apply to a line. \<open>lines[0]\<close> would raise
  \<open>IndexError\<close> on an empty list; any exception of the block ends in the \<open>except\<close> branch,
  which is the result \<open>Inl\<close> here.
\<close>

definition LF :: nat where
  "LF = of_char CHR ''\<newline>''"

definition pipe :: nat where
  "pipe = of_char CHR ''|''"

definition cells :: "str \<Rightarrow> str list" where
  "cells line = map strip (str_split pipe (strip_chars [pipe] line))"

definition markdown_to_dataframe :: "str \<Rightarrow> error + table" where
  "markdown_to_dataframe generated_content =
     (let lines = str_split LF (strip generated_content) in
      case lines of
        [] \<Rightarrow> Inl IndexError
      | first # _ \<Rightarrow>
          (let header = cells first;
               data = map cells (drop 2 lines)
           in DataFrame data header))"

section \<open>Effects and external collaborators\<close>

text \<open>
  What the program shows and whom it calls is recorded as a list of events, in the order
  of the calls: \<open>st.info\<close>, \<open>st.warning\<close>, \<open>st.error\<close>, \<open>st.success\<close>, \<open>st.subheader\<close>,
  \<open>st.markdown\<close>, \<open>st.dataframe\<close>, and \<open>model.generate_content(prompt)\<close>.

  An exception of a library is the text an f-string prints for it. The language model is
  a function from the prompt to its answer or to the exception it raises. A PDF is what
  PyPDF2 makes of it: \<open>PdfReader\<close> raises or gives the pages, and \<open>extract_text\<close> on a
  page raises or returns that page's text.
\<close>

type_synonym exn = str

datatype event =
    Info str
  | Warning str
  | Error str
  | Success str
  | Subheader str
  | Markdown str
  | Dataframe table
  | GenerateContent str

type_synonym pdf = "exn + (exn + str) list"

record uploaded_file =
  name :: str
  getvalue :: pdf

section \<open>Helper functions\<close>

text \<open>
  \<open>extract_text_from_pdf\<close> (lines 50 to 66): the texts of the pages are concatenated; any
  exception is shown with \<open>st.error\<close> and the function returns \<open>None\<close>.
\<close>

fun read_pages :: "(exn + str) list \<Rightarrow> str \<Rightarrow> exn + str" where
  "read_pages [] text = Inr text"
| "read_pages (page # pages) text =
     (case page of Inl e \<Rightarrow> Inl e | Inr t \<Rightarrow> read_pages pages (text @ t))"

definition extract_text_from_pdf :: "pdf \<Rightarrow> event list \<times> str option" where
  "extract_text_from_pdf pdf_file =
     (case (case pdf_file of Inl e \<Rightarrow> Inl e | Inr pages \<Rightarrow> read_pages pages []) of
        Inr text \<Rightarrow> ([], Some text)
      | Inl e \<Rightarrow> ([Error (S ''Error reading PDF file: '' @ e)], None))"

text \<open>
  \<open>generate_table_from_resumes\<close> (lines 68 to 95). \<open>prompt_template\<close> is the f-string of
  lines 82 to 89, with its line breaks and indentation: \<open>prompt_head\<close> is its text before
  \<open>{combined_text}\<close> and \<open>prompt_tail\<close> its text after. \<open>dq x\<close> is \<open>x\<close> between two double
  quotes (code point 34).
\<close>

definition dq :: "str \<Rightarrow> str" where
  "dq x = [34] @ x @ [34]"

definition prompt_head :: str where
  "prompt_head =
     S ''\<newline>    Based on the following resume texts, create a Markdown table summarizing the key information for each candidate.\<newline>    The table should have the following columns: ''
     @ dq (S ''Name'') @ S '', '' @ dq (S ''Age / DOB'') @ S '', '' @ dq (S ''Years of Experience'')
     @ S '', '' @ dq (S ''Specialization / JD'') @ S '', '' @ dq (S ''Key Skills / Certifications'')
     @ S '', and '' @ dq (S ''Other Details'')
     @ S ''.\<newline>    Extract the information as accurately as possible. If a piece of information is not found, write ''
     @ dq (S ''Not specified'')
     @ S ''.\<newline>\<newline>    Resume Texts:\<newline>    ''"

definition prompt_tail :: str where
  "prompt_tail = S ''\<newline>    ''"

definition prompt_template :: "str \<Rightarrow> str" where
  "prompt_template combined_text = prompt_head @ combined_text @ prompt_tail"

definition separator :: str where
  "separator = S ''\<newline>\<newline>--- NEW RESUME ---\<newline>\<newline>''"

definition generate_table_from_resumes ::
    "(str \<Rightarrow> exn + str) \<Rightarrow> str list \<Rightarrow> event list \<times> str" where
  "generate_table_from_resumes model resume_texts =
     (if resume_texts = [] then ([], S ''No resume text provided.'')
      else
        (let combined_text = join separator resume_texts;
             prompt = prompt_template combined_text
         in case model prompt of
              Inr text \<Rightarrow> ([GenerateContent prompt], text)
            | Inl e \<Rightarrow>
                ([GenerateContent prompt],
                 S ''An error occurred while calling the Gemini API: '' @ e)))"

section \<open>The application\<close>

text \<open>
  The loop of lines 116 to 125. \<open>if text:\<close> is false for \<open>None\<close> and for the empty
  string.
\<close>

definition skip_warning :: "str \<Rightarrow> event" where
  "skip_warning n = Warning (S ''Could not extract text from `'' @ n @ S ''`. Skipping.'')"

fun extraction_loop :: "uploaded_file list \<Rightarrow> str list \<Rightarrow> event list \<times> str list" where
  "extraction_loop [] all_resume_texts = ([], all_resume_texts)"
| "extraction_loop (pdf # rest) all_resume_texts =
     (let (shown, text) = extract_text_from_pdf (getvalue pdf);
          (warned, texts) =
             (case text of
                Some t \<Rightarrow>
                  if t \<noteq> [] then ([], all_resume_texts @ [t])
                  else ([skip_warning (name pdf)], all_resume_texts)
              | None \<Rightarrow> ([skip_warning (name pdf)], all_resume_texts));
          (later, final) = extraction_loop rest texts
      in (Info (S ''Processing: `'' @ name pdf @ S ''`'') # shown @ warned @ later, final))"





section \<open>Notions used to state the properties\<close>

text \<open>
  A line that, after trimming, starts and ends with a pipe; a line made of pipes, hyphens,
  colons and whitespace only; and the pieces of a text that stand between double quotes
  (the pieces with an odd index when the text is split at the double quotes).

  For one pass of the extraction loop: the texts the file adds to \<open>all_resume_texts\<close>
  (its text, or nothing), and what the pass shows.
\<close>

definition pipe_delimited :: "str \<Rightarrow> bool" where
  "pipe_delimited line =
     (case strip line of [] \<Rightarrow> False | c # cs \<Rightarrow> c = pipe \<and> last (c # cs) = pipe)"

text \<open>
  The cells of a data line in the words of the specification (section 4.1, step 7): the
  line is trimmed, its leading and its trailing pipe are removed, one at each end, the
  rest is split at the pipes and every piece is trimmed. This is the notion of cell the
  program's \<open>cells\<close> is compared with; it is meant for lines that start and end with a
  pipe.
\<close>

definition spec_cells :: "str \<Rightarrow> str list" where
  "spec_cells line = map strip (str_split pipe (butlast (tl (strip line))))"

definition separator_shaped :: "str \<Rightarrow> bool" where
  "separator_shaped line =
     list_all (\<lambda>c. c = pipe \<or> c = of_char CHR ''-'' \<or> c = of_char CHR '':'' \<or> isspace c) line"

fun odds :: "'a list \<Rightarrow> 'a list" where
  "odds (x # y # zs) = y # odds zs"
| "odds zs = []"

definition quoted_parts :: "str \<Rightarrow> str list" where
  "quoted_parts s = odds (str_split 34 s)"

definition contribution :: "uploaded_file \<Rightarrow> str list" where
  "contribution f =
     (case snd (extract_text_from_pdf (getvalue f)) of
        Some t \<Rightarrow> if t \<noteq> [] then [t] else []
      | None \<Rightarrow> [])"

definition file_events :: "uploaded_file \<Rightarrow> event list" where
  "file_events f =
     Info (S ''Processing: `'' @ name f @ S ''`'') # fst (extract_text_from_pdf (getvalue f))
     @ (if contribution f = [] then [skip_warning (name f)] else [])"

section \<open>Facts about the string operations and the table constructor\<close>

lemma str_split_neq_Nil [simp]: "str_split sep s \<noteq> []"
  by (induction s) (auto split: list.splits)

lemma str_split_union: "(\<Union>l\<in>set (str_split sep s). set l) \<subseteq> set s"
proof (induction s)
  case Nil
  then show ?case by simp
next
  case (Cons c cs)
  then show ?case
    by (cases "str_split sep cs") auto
qed

lemma str_split_elems: "l \<in> set (str_split sep s) \<Longrightarrow> set l \<subseteq> set s"
  using str_split_union [of sep s] by blast

lemma str_split_no_sep: "sep \<notin> set s \<Longrightarrow> str_split sep s = [s]"
  by (induction s) auto

lemma dropWhile_none: "\<forall>c\<in>set s. \<not> p c \<Longrightarrow> dropWhile p s = s"
  by (cases s) auto

lemma strip_where_unchanged: "\<forall>c\<in>set s. \<not> p c \<Longrightarrow> strip_where p s = s"
  unfolding strip_where_def by (simp add: dropWhile_none)

lemma set_strip_where: "set (strip_where p s) \<subseteq> set s"
  unfolding strip_where_def by (auto dest!: set_dropWhileD)

lemma cells_no_pipe:
  assumes "pipe \<notin> set line"
  shows "cells line = [strip line]"
proof -
  have "strip_chars [pipe] line = line"
    unfolding strip_chars_def by (rule strip_where_unchanged) (use assms in auto)
  with assms show ?thesis
    by (simp add: cells_def str_split_no_sep)
qed

lemma length_le_width: "r \<in> set data \<Longrightarrow> length r \<le> width data"
  by (induction data) auto

lemma width_attained: "data \<noteq> [] \<Longrightarrow> \<exists>r\<in>set data. length r = width data"
proof (induction data)
  case Nil
  then show ?case by simp
next
  case (Cons r rs)
  show ?case
  proof (cases "rs = []")
    case True
    then show ?thesis by simp
  next
    case False
    with Cons.IH obtain q where "q \<in> set rs" "length q = width rs"
      by auto
    then show ?thesis by (cases "length r \<le> length q") (auto simp: max_def)
  qed
qed

lemma width_singletons: "data \<noteq> [] \<Longrightarrow> \<forall>r\<in>set data. length r = 1 \<Longrightarrow> width data = 1"
  using width_attained by fastforce

lemma length_to_object_array_row:
  "r \<in> set (to_object_array data) \<Longrightarrow> length r = width data"
  by (auto simp: to_object_array_def dest: length_le_width)

lemma to_object_array_full:
  "\<forall>r\<in>set data. length r = width data \<Longrightarrow> to_object_array data = map (map Some) data"
  by (simp add: to_object_array_def)

lemma DataFrame_rectangular:
  "DataFrame data cols = Inr t \<Longrightarrow> r \<in> set (rows t) \<Longrightarrow> length r = length (columns t)"
  by (auto simp: DataFrame_def split: if_splits dest: length_to_object_array_row)

lemma DataFrame_cases:
  "DataFrame data cols = Inr \<lparr>columns = cols, rows = to_object_array data\<rparr> \<or>
   (data \<noteq> [] \<and> length cols \<noteq> width data \<and>
    DataFrame data cols = Inl (ValueError (length cols) (width data)))"
  by (simp add: DataFrame_def to_object_array_def)

lemma DataFrame_Inr:
  "DataFrame data cols = Inr t \<Longrightarrow>
   columns t = cols \<and> rows t = to_object_array data \<and> (data = [] \<or> width data = length cols)"
  by (auto simp: DataFrame_def to_object_array_def split: if_splits)

lemma DataFrame_mismatch:
  "data \<noteq> [] \<Longrightarrow> width data \<noteq> length cols \<Longrightarrow>
   DataFrame data cols = Inl (ValueError (length cols) (width data))"
  by (auto simp: DataFrame_def)

lemma md_unfold:
  "str_split LF (strip s) = first # rest \<Longrightarrow>
   markdown_to_dataframe s = DataFrame (map cells (drop 1 rest)) (cells first)"
  by (simp add: markdown_to_dataframe_def Let_def numeral_2_eq_2)

lemma str_split_append_sep:
  "sep \<notin> set c \<Longrightarrow> str_split sep (c @ sep # rest) = c # str_split sep rest"
  by (induction c) auto

lemma join_Cons: "join sep (c # cs) = c @ (if cs = [] then [] else sep @ join sep cs)"
  by (cases cs) auto

lemma join_snoc: "join sep (cs @ [c]) = (if cs = [] then [] else join sep cs @ sep) @ c"
proof (induction cs)
  case Nil
  then show ?case by simp
next
  case (Cons d ds)
  then show ?case by (cases ds) auto
qed

lemma str_split_join:
  "cs \<noteq> [] \<Longrightarrow> \<forall>c\<in>set cs. sep \<notin> set c \<Longrightarrow> str_split sep (join [sep] cs) = cs"
proof (induction cs)
  case Nil
  then show ?case by simp
next
  case (Cons c cs)
  show ?case
  proof (cases cs)
    case Nil
    with Cons.prems show ?thesis by (simp add: str_split_no_sep)
  next
    case (Cons d ds)
    with Cons.IH Cons.prems show ?thesis
      by (simp add: str_split_append_sep)
  qed
qed

lemma strip_chars_outer:
  assumes "x \<noteq> []" and "hd x \<noteq> pipe" and "last x \<noteq> pipe"
  shows "strip_chars [pipe] (pipe # x @ [pipe]) = x"
proof -
  let ?p = "\<lambda>c. c \<in> set [pipe]"
  from assms have at_front: "dropWhile ?p (pipe # x @ [pipe]) = x @ [pipe]"
    by (cases x) auto
  from assms have at_back: "dropWhile ?p (rev (x @ [pipe])) = rev x"
    by (cases x rule: rev_cases) auto
  show ?thesis
    unfolding strip_chars_def strip_where_def at_front at_back by simp
qed

lemma cells_of_row:
  assumes "cs \<noteq> []" and "hd cs \<noteq> []" and "last cs \<noteq> []"
      and "\<forall>c\<in>set cs. pipe \<notin> set c"
  shows "cells ([pipe] @ join [pipe] cs @ [pipe]) = map strip cs"
proof -
  obtain c rest where at_front: "cs = c # rest"
    using assms(1) by (cases cs) auto
  obtain start d where at_back: "cs = start @ [d]"
    using assms(1) by (cases cs rule: rev_cases) auto
  from assms at_front have c: "c \<noteq> []" "pipe \<notin> set c" by auto
  from assms at_back have d: "d \<noteq> []" "pipe \<notin> set d" by auto
  have ne: "join [pipe] cs \<noteq> []"
    using c unfolding at_front by (simp add: join_Cons)
  have "hd (join [pipe] cs) = hd c"
    using c unfolding at_front by (simp add: join_Cons)
  with c have h: "hd (join [pipe] cs) \<noteq> pipe"
    by (metis hd_in_set)
  have "last (join [pipe] cs) = last d"
    using d unfolding at_back by (simp add: join_snoc)
  with d have l: "last (join [pipe] cs) \<noteq> pipe"
    by (metis last_in_set)
  have "strip_chars [pipe] (pipe # join [pipe] cs @ [pipe]) = join [pipe] cs"
    by (rule strip_chars_outer [OF ne h l])
  then show ?thesis
    using assms(1,4) by (simp add: cells_def str_split_join)
qed

lemma not_isspace_pipe: "\<not> isspace pipe"
  by (simp add: isspace_def pipe_def)

lemma strip_pipe_delimited: "strip (pipe # x @ [pipe]) = pipe # x @ [pipe]"
  by (simp add: strip_def strip_where_def not_isspace_pipe)

lemma spec_cells_of_row:
  assumes "cs \<noteq> []" and "\<forall>c\<in>set cs. pipe \<notin> set c"
  shows "spec_cells ([pipe] @ join [pipe] cs @ [pipe]) = map strip cs"
  using assms by (simp add: spec_cells_def strip_pipe_delimited butlast_append str_split_join)

lemma strip_chars_pipe_front: "strip_chars [pipe] (pipe # line) = strip_chars [pipe] line"
  by (simp add: strip_chars_def strip_where_def)

lemma strip_where_snoc:
  assumes "p x"
  shows "strip_where p (s @ [x]) = strip_where p s"
proof (cases "\<forall>c\<in>set s. p c")
  case True
  with assms show ?thesis
    by (auto simp: strip_where_def dropWhile_append dest: set_dropWhileD)
next
  case False
  with assms show ?thesis
    by (auto simp: strip_where_def dropWhile_append)
qed

lemma strip_chars_pipe_rear: "strip_chars [pipe] (line @ [pipe]) = strip_chars [pipe] line"
  unfolding strip_chars_def by (rule strip_where_snoc) simp

lemma cells_outer_pipes:
  "cells (pipe # line) = cells line \<and> cells (line @ [pipe]) = cells line"
  by (simp add: cells_def strip_chars_pipe_front strip_chars_pipe_rear)

lemma to_object_array_nth:
  "i < length data \<Longrightarrow>
   to_object_array data ! i = map Some (data ! i) @ replicate (width data - length (data ! i)) None"
  by (simp add: to_object_array_def)

lemmas cells_eval =
  cells_def strip_def strip_chars_def strip_where_def isspace_def pipe_def

lemmas parser_eval =
  markdown_to_dataframe_def DataFrame_def to_object_array_def cells_def strip_def
  strip_chars_def strip_where_def isspace_def LF_def pipe_def

section \<open>The Markdown table parser\<close>

text \<open>
  Claim C1, as amended. The claim says that an input in which no line, after trimming,
  starts and ends with a pipe fails with \<open>NoTableFound\<close>. The program has no such
  failure and never looks for a header line: for every input the first line of the trimmed
  text is the header line, with or without pipes. The conversion gives the frame whose
  columns are the cells of that line and whose rows come from the third line on, and its
  only failure is the constructor's, when there are data lines and the widest has a
  number of cells other than the header's. An input without any pipe is always converted:
  one column, named by the trimmed first line, and one single-cell row for each line from
  the third on.
\<close>

theorem header_is_first_line:
  "\<exists>first rest. str_split LF (strip s) = first # rest \<and>
     (markdown_to_dataframe s =
        Inr \<lparr>columns = cells first, rows = to_object_array (map cells (drop 1 rest))\<rparr> \<or>
      (2 \<le> length rest \<and> length (cells first) \<noteq> width (map cells (drop 1 rest)) \<and>
       markdown_to_dataframe s =
         Inl (ValueError (length (cells first)) (width (map cells (drop 1 rest)))))) \<and>
     (pipe \<notin> set s \<longrightarrow>
        markdown_to_dataframe s =
          Inr \<lparr>columns = [strip first], rows = map (\<lambda>line. [Some (strip line)]) (drop 1 rest)\<rparr>)"
proof -
  obtain first rest where l: "str_split LF (strip s) = first # rest"
    by (cases "str_split LF (strip s)") simp_all
  have m: "markdown_to_dataframe s = DataFrame (map cells (drop 1 rest)) (cells first)"
    by (rule md_unfold [OF l])
  have a: "markdown_to_dataframe s =
        Inr \<lparr>columns = cells first, rows = to_object_array (map cells (drop 1 rest))\<rparr> \<or>
      (2 \<le> length rest \<and> length (cells first) \<noteq> width (map cells (drop 1 rest)) \<and>
       markdown_to_dataframe s =
         Inl (ValueError (length (cells first)) (width (map cells (drop 1 rest)))))"
    using DataFrame_cases [of "map cells (drop 1 rest)" "cells first"] m
    by (cases rest; cases "tl rest") auto
  have b: "markdown_to_dataframe s =
          Inr \<lparr>columns = [strip first], rows = map (\<lambda>line. [Some (strip line)]) (drop 1 rest)\<rparr>"
    if np: "pipe \<notin> set s"
  proof -
    define later where "later = drop 1 rest"
    have sub: "set (strip s) \<subseteq> set s"
      unfolding strip_def by (rule set_strip_where)
    have lines: "\<forall>line\<in>set (first # rest). pipe \<notin> set line"
      using str_split_elems [of _ LF "strip s"] sub np unfolding l by blast
    then have f: "cells first = [strip first]"
      by (simp add: cells_no_pipe)
    have "\<forall>line\<in>set later. pipe \<notin> set line"
      using lines unfolding later_def by (auto dest: in_set_dropD)
    then have d: "map cells later = map (\<lambda>line. [strip line]) later"
      by (simp add: cells_no_pipe)
    have "DataFrame (map cells later) (cells first) =
        Inr \<lparr>columns = [strip first], rows = map (\<lambda>line. [Some (strip line)]) later\<rparr>"
    proof (cases "later = []")
      case True
      then show ?thesis by (simp add: f DataFrame_def)
    next
      case False
      then have w: "width (map (\<lambda>line. [strip line]) later) = 1"
        by (intro width_singletons) auto
      then have "to_object_array (map (\<lambda>line. [strip line]) later) =
          map (map Some) (map (\<lambda>line. [strip line]) later)"
        by (intro to_object_array_full) auto
      with w False show ?thesis by (simp add: f d DataFrame_def comp_def)
    qed
    then show ?thesis unfolding m later_def .
  qed
  from l a b show ?thesis by blast
qed

theorem header_is_first_line_witness:
  "pipe \<notin> set (S ''No candidates.\<newline>\<newline>See the resumes.\<newline>Thank you.'') \<and>
   markdown_to_dataframe (S ''No candidates.\<newline>\<newline>See the resumes.\<newline>Thank you.'') =
     Inr \<lparr>columns = [S ''No candidates.''],
          rows = [[Some (S ''See the resumes.'')], [Some (S ''Thank you.'')]]\<rparr>"
proof -
  have l: "str_split LF (strip (S ''No candidates.\<newline>\<newline>See the resumes.\<newline>Thank you.'')) =
      [S ''No candidates.'', [], S ''See the resumes.'', S ''Thank you.'']"
    by (simp add: parser_eval)
  have p: "pipe \<notin> set (S ''No candidates.\<newline>\<newline>See the resumes.\<newline>Thank you.'')"
    by (simp add: pipe_def)
  have e: "strip (S ''No candidates.'') = S ''No candidates.'' \<and>
      strip (S ''See the resumes.'') = S ''See the resumes.'' \<and>
      strip (S ''Thank you.'') = S ''Thank you.''"
    by (simp add: parser_eval)
  from header_is_first_line [of "S ''No candidates.\<newline>\<newline>See the resumes.\<newline>Thank you.''"] p
  show ?thesis
    unfolding l using e by simp
qed

theorem no_table_found_counterexample:
  "\<not> pipe_delimited (S ''Here is some text with no table.'') \<and>
   str_split LF (strip (S ''Here is some text with no table.'')) =
     [S ''Here is some text with no table.''] \<and>
   markdown_to_dataframe (S ''Here is some text with no table.'') =
     Inr \<lparr>columns = [S ''Here is some text with no table.''], rows = []\<rparr>"
  by (simp add: parser_eval pipe_delimited_def)

text \<open>
  Claim C6. Whenever the conversion succeeds, every row of the frame has as many cells as
  there are columns. The constructor sees to it: it refuses data whose widest row differs
  from the header and fills the shorter rows with \<open>None\<close>.
\<close>

theorem rows_match_columns:
  assumes "markdown_to_dataframe s = Inr t"
  shows "\<forall>r \<in> set (rows t). length r = length (columns t)"
proof -
  obtain first rest where l: "str_split LF (strip s) = first # rest"
    by (cases "str_split LF (strip s)") simp_all
  from assms md_unfold [OF l] show ?thesis
    by (auto dest: DataFrame_rectangular)
qed

theorem rows_match_columns_witness:
  "markdown_to_dataframe (S ''| Name | Years |\<newline>|---|---|\<newline>| Alice | 5 |\<newline>| Bob |'') =
     Inr \<lparr>columns = [S ''Name'', S ''Years''],
          rows = [[Some (S ''Alice''), Some (S ''5'')], [Some (S ''Bob''), None]]\<rparr> \<and>
   list_all (\<lambda>r. length r = length [S ''Name'', S ''Years''])
     [[Some (S ''Alice''), Some (S ''5'')], [Some (S ''Bob''), None]]"
proof -
  have h: "markdown_to_dataframe (S ''| Name | Years |\<newline>|---|---|\<newline>| Alice | 5 |\<newline>| Bob |'') =
     Inr \<lparr>columns = [S ''Name'', S ''Years''],
          rows = [[Some (S ''Alice''), Some (S ''5'')], [Some (S ''Bob''), None]]\<rparr>"
    by (simp add: parser_eval)
  from rows_match_columns [OF h] h show ?thesis
    by (simp add: list_all_iff)
qed

text \<open>
  Claim C2, as amended. The claim says that a header line whose next line is not a
  separator line fails with \<open>MalformedSeparator\<close>. The program has no such failure: the
  loop starts at \<open>lines[2:]\<close>, so the second line of the trimmed input is skipped without
  being read. Two inputs that differ in their second line only are converted alike, and
  the result is built from the first line and the lines from the third on.
\<close>

theorem second_line_not_inspected:
  assumes "str_split LF (strip s) = first # second # rest"
      and "str_split LF (strip s') = first # second' # rest"
  shows "markdown_to_dataframe s = markdown_to_dataframe s' \<and>
         markdown_to_dataframe s = DataFrame (map cells rest) (cells first)"
  using md_unfold [OF assms(1)] md_unfold [OF assms(2)] by simp

theorem second_line_not_inspected_witness:
  "str_split LF (strip (S ''| Name | Years |\<newline>Alice, 5 years\<newline>| Bob | 3 |'')) =
     [S ''| Name | Years |'', S ''Alice, 5 years'', S ''| Bob | 3 |''] \<and>
   str_split LF (strip (S ''| Name | Years |\<newline>|---|---|\<newline>| Bob | 3 |'')) =
     [S ''| Name | Years |'', S ''|---|---|'', S ''| Bob | 3 |''] \<and>
   \<not> separator_shaped (S ''Alice, 5 years'') \<and>
   separator_shaped (S ''|---|---|'') \<and>
   markdown_to_dataframe (S ''| Name | Years |\<newline>Alice, 5 years\<newline>| Bob | 3 |'') =
     markdown_to_dataframe (S ''| Name | Years |\<newline>|---|---|\<newline>| Bob | 3 |'')"
proof -
  have a: "str_split LF (strip (S ''| Name | Years |\<newline>Alice, 5 years\<newline>| Bob | 3 |'')) =
     [S ''| Name | Years |'', S ''Alice, 5 years'', S ''| Bob | 3 |'']"
    by (simp add: strip_def strip_where_def isspace_def LF_def)
  have b: "str_split LF (strip (S ''| Name | Years |\<newline>|---|---|\<newline>| Bob | 3 |'')) =
     [S ''| Name | Years |'', S ''|---|---|'', S ''| Bob | 3 |'']"
    by (simp add: strip_def strip_where_def isspace_def LF_def)
  have c: "\<not> separator_shaped (S ''Alice, 5 years'') \<and> separator_shaped (S ''|---|---|'')"
    by (simp add: separator_shaped_def isspace_def pipe_def)
  from second_line_not_inspected [OF a b] a b c show ?thesis
    by blast
qed

theorem malformed_separator_counterexample:
  "str_split LF (strip (S ''| Name | Years |\<newline>Alice, 5 years'')) =
     [S ''| Name | Years |'', S ''Alice, 5 years''] \<and>
   pipe_delimited (S ''| Name | Years |'') \<and>
   \<not> separator_shaped (S ''Alice, 5 years'') \<and>
   markdown_to_dataframe (S ''| Name | Years |\<newline>Alice, 5 years'') =
     Inr \<lparr>columns = [S ''Name'', S ''Years''], rows = []\<rparr>"
  by (simp add: parser_eval pipe_delimited_def separator_shaped_def)

text \<open>
  Claim C3, as amended. The claim says that a data line with fewer cells than the header
  is padded with empty strings, and that one with more is truncated. The program does
  neither; it passes the cells of every data line to the table constructor as they are.
  A data line with more cells than the header makes the conversion fail. So does a
  table all of whose data lines have fewer cells than the header, which is the case of
  the single row \<open>| Alice |\<close> under a header of two columns. When the conversion
  succeeds, a row holds the cells of its line followed by \<open>None\<close>, the missing value, up
  to the number of columns: not by empty strings.
\<close>

theorem cell_count_not_normalised:
  assumes "str_split LF (strip s) = first # second # data_lines"
  shows "((\<exists>line\<in>set data_lines. length (cells first) < length (cells line)) \<longrightarrow>
            markdown_to_dataframe s =
              Inl (ValueError (length (cells first)) (width (map cells data_lines)))) \<and>
         (data_lines \<noteq> [] \<and> (\<forall>line\<in>set data_lines. length (cells line) < length (cells first)) \<longrightarrow>
            markdown_to_dataframe s =
              Inl (ValueError (length (cells first)) (width (map cells data_lines)))) \<and>
         (\<forall>t. markdown_to_dataframe s = Inr t \<longrightarrow>
            (\<forall>i<length data_lines.
               rows t ! i =
                 map Some (cells (data_lines ! i)) @
                 replicate (length (columns t) - length (cells (data_lines ! i))) None))"
proof -
  let ?data = "map cells data_lines"
  have m: "markdown_to_dataframe s = DataFrame ?data (cells first)"
    using md_unfold [OF assms] by simp
  have wide: "markdown_to_dataframe s = Inl (ValueError (length (cells first)) (width ?data))"
    if "\<exists>line\<in>set data_lines. length (cells first) < length (cells line)"
  proof -
    from that obtain line where line: "line \<in> set data_lines"
      "length (cells first) < length (cells line)" by blast
    then have "length (cells line) \<le> width ?data"
      by (intro length_le_width) simp
    with line have "width ?data \<noteq> length (cells first)" by simp
    moreover from line have "?data \<noteq> []" by auto
    ultimately show ?thesis unfolding m by (rule DataFrame_mismatch [rotated])
  qed
  have narrow: "markdown_to_dataframe s = Inl (ValueError (length (cells first)) (width ?data))"
    if "data_lines \<noteq> []" "\<forall>line\<in>set data_lines. length (cells line) < length (cells first)"
  proof -
    from that(1) have ne: "?data \<noteq> []" by simp
    then obtain r where "r \<in> set ?data" "length r = width ?data"
      using width_attained by blast
    with that(2) have "width ?data \<noteq> length (cells first)" by auto
    with ne show ?thesis unfolding m by (rule DataFrame_mismatch)
  qed
  have filled: "rows t ! i =
      map Some (cells (data_lines ! i)) @
      replicate (length (columns t) - length (cells (data_lines ! i))) None"
    if "markdown_to_dataframe s = Inr t" "i < length data_lines" for t i
  proof -
    from that(1) have d: "columns t = cells first" "rows t = to_object_array ?data"
      "?data = [] \<or> width ?data = length (cells first)"
      using DataFrame_Inr [of ?data "cells first" t] unfolding m by auto
    from that(2) d(3) have "width ?data = length (columns t)"
      using d(1) by auto
    with that(2) show ?thesis
      unfolding d(2) by (simp add: to_object_array_nth)
  qed
  from wide narrow filled show ?thesis by blast
qed

theorem cell_count_not_normalised_witness:
  "markdown_to_dataframe (S ''| Name | Years |\<newline>|---|---|\<newline>| Alice | 5 | Paris |'') =
     Inl (ValueError 2 3) \<and>
   markdown_to_dataframe (S ''| Name | Years |\<newline>|---|---|\<newline>| Alice |\<newline>| Bob |'') =
     Inl (ValueError 2 1) \<and>
   markdown_to_dataframe (S ''| Name | Years |\<newline>|---|---|\<newline>| Alice | 5 |\<newline>| Bob |'') =
     Inr \<lparr>columns = [S ''Name'', S ''Years''],
          rows = [[Some (S ''Alice''), Some (S ''5'')], [Some (S ''Bob''), None]]\<rparr> \<and>
   rows \<lparr>columns = [S ''Name'', S ''Years''],
         rows = [[Some (S ''Alice''), Some (S ''5'')], [Some (S ''Bob''), None]]\<rparr> ! 1 =
     map Some [S ''Bob''] @ replicate (2 - 1) None"
proof -
  have w: "str_split LF (strip (S ''| Name | Years |\<newline>|---|---|\<newline>| Alice | 5 | Paris |'')) =
      [S ''| Name | Years |'', S ''|---|---|'', S ''| Alice | 5 | Paris |'']"
    by (simp add: strip_def strip_where_def isspace_def LF_def)
  have n: "str_split LF (strip (S ''| Name | Years |\<newline>|---|---|\<newline>| Alice |\<newline>| Bob |'')) =
      [S ''| Name | Years |'', S ''|---|---|'', S ''| Alice |'', S ''| Bob |'']"
    by (simp add: strip_def strip_where_def isspace_def LF_def)
  have f: "str_split LF (strip (S ''| Name | Years |\<newline>|---|---|\<newline>| Alice | 5 |\<newline>| Bob |'')) =
      [S ''| Name | Years |'', S ''|---|---|'', S ''| Alice | 5 |'', S ''| Bob |'']"
    by (simp add: strip_def strip_where_def isspace_def LF_def)
  have t: "markdown_to_dataframe (S ''| Name | Years |\<newline>|---|---|\<newline>| Alice | 5 |\<newline>| Bob |'') =
     Inr \<lparr>columns = [S ''Name'', S ''Years''],
          rows = [[Some (S ''Alice''), Some (S ''5'')], [Some (S ''Bob''), None]]\<rparr>"
    by (simp add: parser_eval)
  have 1: "markdown_to_dataframe (S ''| Name | Years |\<newline>|---|---|\<newline>| Alice | 5 | Paris |'') =
     Inl (ValueError 2 3)"
    using cell_count_not_normalised [OF w] by (simp add: cells_eval)
  have 2: "markdown_to_dataframe (S ''| Name | Years |\<newline>|---|---|\<newline>| Alice |\<newline>| Bob |'') =
     Inl (ValueError 2 1)"
    using cell_count_not_normalised [OF n] by (simp add: cells_eval)
  have 3: "rows \<lparr>columns = [S ''Name'', S ''Years''],
         rows = [[Some (S ''Alice''), Some (S ''5'')], [Some (S ''Bob''), None]]\<rparr> ! 1 =
     map Some [S ''Bob''] @ replicate (2 - 1) None"
    using cell_count_not_normalised [OF f] t by (simp add: cells_eval)
  from 1 2 3 t show ?thesis by blast
qed

theorem short_row_counterexample:
  "cells (S ''| Name | Years |'') = [S ''Name'', S ''Years''] \<and>
   cells (S ''| Alice |'') = [S ''Alice''] \<and>
   markdown_to_dataframe (S ''| Name | Years |\<newline>|---|---|\<newline>| Alice |'') =
     Inl (ValueError 2 1)"
  by (simp add: parser_eval)

text \<open>
  Claim C4, as amended. The claim says that every data row whose cell count equals the
  number of columns is parsed to its trimmed cell values, in their order. The program
  computes the cells of a line with \<open>line.strip('|').split('|')\<close>: it does not trim the
  line, and it removes every pipe at either end, not one. For a row written as a pipe,
  the cell texts joined by pipes, and a pipe, with no pipe inside a cell text and the
  first and the last cell text not empty, these are the row's cell values, each trimmed,
  and such a row with as many cells as there are columns is parsed to them, unchanged
  and in their order, when the conversion succeeds. In general the row of a line holds
  the cells the program computes for it, and pipes put at either end of a line never
  change them: an empty cell text next to an outer pipe is not a cell for the program.
  A blank after the last pipe of a line keeps that pipe and gives one more, empty cell.
  The table of four lines of the claim is converted as the claim says.
\<close>

theorem full_rows_verbatim:
  "(markdown_to_dataframe s = Inr t \<and>
    str_split LF (strip s) = first # second # data_lines \<and>
    i < length data_lines \<and>
    data_lines ! i = [pipe] @ join [pipe] cs @ [pipe] \<and>
    cs \<noteq> [] \<and> hd cs \<noteq> [] \<and> last cs \<noteq> [] \<and> (\<forall>c\<in>set cs. pipe \<notin> set c) \<and>
    length cs = length (columns t) \<longrightarrow>
      spec_cells (data_lines ! i) = map strip cs \<and>
      rows t ! i = map Some (map strip cs)) \<and>
   (markdown_to_dataframe s = Inr t \<and>
    str_split LF (strip s) = first # second # data_lines \<and>
    i < length data_lines \<and>
    length (cells (data_lines ! i)) = length (columns t) \<longrightarrow>
      rows t ! i = map Some (cells (data_lines ! i))) \<and>
   cells ([pipe] @ line) = cells line \<and>
   cells (line @ [pipe]) = cells line \<and>
   cells (S ''| Alice | 5 | '') = [S ''Alice'', S ''5'', []] \<and>
   markdown_to_dataframe
     (S ''| Name | Years |\<newline>|---|---|\<newline>| Alice | 5 |\<newline>| Bob | 3 |'') =
     Inr \<lparr>columns = [S ''Name'', S ''Years''],
          rows = [[Some (S ''Alice''), Some (S ''5'')], [Some (S ''Bob''), Some (S ''3'')]]\<rparr>"
proof -
  have a: "rows t ! i = map Some (cells (data_lines ! i))"
    if "markdown_to_dataframe s = Inr t"
       "str_split LF (strip s) = first # second # data_lines"
       "i < length data_lines"
       "length (cells (data_lines ! i)) = length (columns t)"
  proof -
    let ?data = "map cells data_lines"
    have m: "markdown_to_dataframe s = DataFrame ?data (cells first)"
      using md_unfold [OF that(2)] by simp
    from that(1) have d: "columns t = cells first" "rows t = to_object_array ?data"
      "?data = [] \<or> width ?data = length (cells first)"
      using DataFrame_Inr [of ?data "cells first" t] unfolding m by auto
    from that(3) d(3) d(1) have "width ?data = length (columns t)" by auto
    with that(3,4) show ?thesis
      unfolding d(2) by (simp add: to_object_array_nth)
  qed
  have b: "spec_cells (data_lines ! i) = map strip cs \<and> rows t ! i = map Some (map strip cs)"
    if ok: "markdown_to_dataframe s = Inr t"
      and l: "str_split LF (strip s) = first # second # data_lines"
      and i: "i < length data_lines"
      and row: "data_lines ! i = [pipe] @ join [pipe] cs @ [pipe]"
      and cs: "cs \<noteq> []" "hd cs \<noteq> []" "last cs \<noteq> []" "\<forall>c\<in>set cs. pipe \<notin> set c"
      and n: "length cs = length (columns t)"
  proof -
    have c: "cells (data_lines ! i) = map strip cs"
      unfolding row using cs by (rule cells_of_row)
    have sc: "spec_cells (data_lines ! i) = map strip cs"
      unfolding row using cs(1,4) by (rule spec_cells_of_row)
    from c n have "length (cells (data_lines ! i)) = length (columns t)"
      by simp
    from a [OF ok l i this] c sc show ?thesis by simp
  qed
  have c: "cells ([pipe] @ line) = cells line \<and> cells (line @ [pipe]) = cells line"
    using cells_outer_pipes [of line] by simp
  have d: "markdown_to_dataframe
     (S ''| Name | Years |\<newline>|---|---|\<newline>| Alice | 5 |\<newline>| Bob | 3 |'') =
     Inr \<lparr>columns = [S ''Name'', S ''Years''],
          rows = [[Some (S ''Alice''), Some (S ''5'')], [Some (S ''Bob''), Some (S ''3'')]]\<rparr>"
    by (simp add: parser_eval)
  have e: "cells (S ''| Alice | 5 | '') = [S ''Alice'', S ''5'', []]"
    by (simp add: cells_eval)
  from a b c d e show ?thesis by blast
qed

theorem full_rows_verbatim_witness:
  "markdown_to_dataframe
     (S ''| Name | Years |\<newline>|---|---|\<newline>| Alice | 5 |\<newline>| Bob | 3 |'') =
     Inr \<lparr>columns = [S ''Name'', S ''Years''],
          rows = [[Some (S ''Alice''), Some (S ''5'')], [Some (S ''Bob''), Some (S ''3'')]]\<rparr> \<and>
   [pipe] @ join [pipe] [S '' Bob '', S '' 3 ''] @ [pipe] = S ''| Bob | 3 |'' \<and>
   spec_cells (S ''| Bob | 3 |'') = [S ''Bob'', S ''3''] \<and>
   length (cells (S ''| Bob | 3 |'')) = length [S ''Name'', S ''Years''] \<and>
   [Some (S ''Bob''), Some (S ''3'')] = map Some (cells (S ''| Bob | 3 |'')) \<and>
   rows \<lparr>columns = [S ''Name'', S ''Years''],
         rows = [[Some (S ''Alice''), Some (S ''5'')], [Some (S ''Bob''), Some (S ''3'')]]\<rparr> ! 1 =
     [Some (S ''Bob''), Some (S ''3'')] \<and>
   cells (S ''|| 5 |'') = cells (S ''| 5 |'')"
proof -
  let ?s = "S ''| Name | Years |\<newline>|---|---|\<newline>| Alice | 5 |\<newline>| Bob | 3 |''"
  let ?t = "\<lparr>columns = [S ''Name'', S ''Years''],
          rows = [[Some (S ''Alice''), Some (S ''5'')], [Some (S ''Bob''), Some (S ''3'')]]\<rparr>"
  let ?cs = "[S '' Bob '', S '' 3 '']"
  let ?lines = "[S ''| Alice | 5 |'', S ''| Bob | 3 |'']"
  have l: "str_split LF (strip ?s) = S ''| Name | Years |'' # S ''|---|---|'' # ?lines"
    by (simp add: strip_def strip_where_def isspace_def LF_def)
  have t: "markdown_to_dataframe ?s = Inr ?t"
    by (simp add: parser_eval)
  have j: "[pipe] @ join [pipe] ?cs @ [pipe] = S ''| Bob | 3 |''"
    by (simp add: pipe_def)
  have row: "?lines ! 1 = [pipe] @ join [pipe] ?cs @ [pipe]"
    by (simp add: pipe_def)
  have cs: "?cs \<noteq> [] \<and> hd ?cs \<noteq> [] \<and> last ?cs \<noteq> [] \<and> (\<forall>c\<in>set ?cs. pipe \<notin> set c) \<and>
      length ?cs = length (columns ?t)"
    by (simp add: pipe_def)
  have trimmed: "map strip ?cs = [S ''Bob'', S ''3'']"
    by (simp add: strip_def strip_where_def isspace_def)
  note inst = full_rows_verbatim [where s = ?s and t = ?t and first = "S ''| Name | Years |''"
      and second = "S ''|---|---|''" and data_lines = ?lines and i = 1 and cs = ?cs
      and line = "S ''| 5 |''"]
  have i: "1 < length ?lines"
    by simp
  from t l i row cs have p1: "markdown_to_dataframe ?s = Inr ?t \<and>
      str_split LF (strip ?s) = S ''| Name | Years |'' # S ''|---|---|'' # ?lines \<and>
      1 < length ?lines \<and>
      ?lines ! 1 = [pipe] @ join [pipe] ?cs @ [pipe] \<and>
      ?cs \<noteq> [] \<and> hd ?cs \<noteq> [] \<and> last ?cs \<noteq> [] \<and> (\<forall>c\<in>set ?cs. pipe \<notin> set c) \<and>
      length ?cs = length (columns ?t)"
    by (intro conjI) (erule conjunct1 | erule conjunct2 [THEN conjunct1] | assumption | simp add: pipe_def)+
  have 1: "spec_cells (?lines ! 1) = map strip ?cs \<and>
      rows ?t ! 1 = map Some (map strip ?cs)"
    by (rule mp [OF inst [THEN conjunct1] p1])
  have 2: "spec_cells (S ''| Bob | 3 |'') = [S ''Bob'', S ''3'']"
    using 1 unfolding trimmed by simp
  have 3: "rows ?t ! 1 = [Some (S ''Bob''), Some (S ''3'')]"
    using 1 unfolding trimmed by simp
  have len: "length (cells (?lines ! 1)) = length (columns ?t)"
    by (simp add: cells_eval)
  from t l i len have p2: "markdown_to_dataframe ?s = Inr ?t \<and>
      str_split LF (strip ?s) = S ''| Name | Years |'' # S ''|---|---|'' # ?lines \<and>
      1 < length ?lines \<and>
      length (cells (?lines ! 1)) = length (columns ?t)"
    by (intro conjI)
  have "rows ?t ! 1 = map Some (cells (?lines ! 1))"
    by (rule mp [OF inst [THEN conjunct2, THEN conjunct1] p2])
  then have 4: "[Some (S ''Bob''), Some (S ''3'')] = map Some (cells (S ''| Bob | 3 |''))"
    by simp
  from len have 6: "length (cells (S ''| Bob | 3 |'')) = length [S ''Name'', S ''Years'']"
    by simp
  have "cells ([pipe] @ S ''| 5 |'') = cells (S ''| 5 |'')"
    by (rule inst [THEN conjunct2, THEN conjunct2, THEN conjunct1])
  then have 5: "cells (S ''|| 5 |'') = cells (S ''| 5 |'')"
    by (simp add: pipe_def)
  from t j 2 3 4 5 6 show ?thesis by blast
qed

theorem empty_first_cell_counterexample:
  "pipe_delimited (S ''|| 5 |'') \<and>
   spec_cells (S ''|| 5 |'') = [[], S ''5''] \<and>
   length (spec_cells (S ''|| 5 |'')) = length [S ''Name'', S ''Years''] \<and>
   cells (S ''|| 5 |'') = [S ''5''] \<and>
   markdown_to_dataframe
     (S ''| Name | Years |\<newline>|---|---|\<newline>| Alice | 5 |\<newline>|| 5 |'') =
     Inr \<lparr>columns = [S ''Name'', S ''Years''],
          rows = [[Some (S ''Alice''), Some (S ''5'')], [Some (S ''5''), None]]\<rparr>"
  by (simp add: parser_eval pipe_delimited_def spec_cells_def)

text \<open>
  Claim C5, as amended. The claim says that data rows are collected up to the first blank
  line or the first line that does not start and end with a pipe, and that such a line
  ends the table without an error. The program has no stopping point: every line of the
  trimmed input from the third to the last is a data line, blank lines and lines without
  pipes too. When the conversion succeeds, the table has one row for each of these lines,
  in their order, and each row starts with the cells of its line. A line without pipes
  can make the conversion fail: when no data line holds a pipe and the header has a
  number of cells other than one, the conversion fails.
\<close>

theorem no_stop_at_table_end:
  "(markdown_to_dataframe s = Inr t \<longrightarrow>
      length (rows t) = length (str_split LF (strip s)) - 2 \<and>
      (\<forall>i<length (rows t).
         \<exists>filling. rows t ! i = map Some (cells (str_split LF (strip s) ! (i + 2))) @ filling)) \<and>
   (str_split LF (strip s) = first # second # data_lines \<and> data_lines \<noteq> [] \<and>
    (\<forall>line\<in>set data_lines. pipe \<notin> set line) \<and> length (cells first) \<noteq> 1 \<longrightarrow>
      markdown_to_dataframe s = Inl (ValueError (length (cells first)) 1))"
proof -
  have collected: "length (rows t) = length (str_split LF (strip s)) - 2 \<and>
      (\<forall>i<length (rows t).
         \<exists>filling. rows t ! i = map Some (cells (str_split LF (strip s) ! (i + 2))) @ filling)"
    if ok: "markdown_to_dataframe s = Inr t"
  proof -
    obtain first rest where l: "str_split LF (strip s) = first # rest"
      by (cases "str_split LF (strip s)") simp_all
    define later where "later = drop 1 rest"
    let ?data = "map cells later"
    have m: "markdown_to_dataframe s = DataFrame ?data (cells first)"
      using md_unfold [OF l] unfolding later_def .
    from ok have d: "rows t = to_object_array ?data"
      using DataFrame_Inr [of ?data "cells first" t] unfolding m by auto
    have n: "length (rows t) = length later"
      unfolding d by (simp add: to_object_array_def)
    have len: "length later = length (str_split LF (strip s)) - 2"
      unfolding l later_def by simp
    have nth: "later ! i = str_split LF (strip s) ! (i + 2)" if "i < length later" for i
      using that unfolding l later_def by (cases rest) auto
    have "\<exists>filling. rows t ! i = map Some (cells (str_split LF (strip s) ! (i + 2))) @ filling"
      if "i < length (rows t)" for i
    proof -
      from that n have i: "i < length later" by simp
      then have "rows t ! i = map Some (cells (later ! i)) @
          replicate (width ?data - length (cells (later ! i))) None"
        unfolding d by (simp add: to_object_array_nth)
      with nth [OF i] show ?thesis by auto
    qed
    with n len show ?thesis by simp
  qed
  have fails: "markdown_to_dataframe s = Inl (ValueError (length (cells first)) 1)"
    if l: "str_split LF (strip s) = first # second # data_lines"
      and ne: "data_lines \<noteq> []"
      and np: "\<forall>line\<in>set data_lines. pipe \<notin> set line"
      and h: "length (cells first) \<noteq> 1"
  proof -
    let ?data = "map cells data_lines"
    have m: "markdown_to_dataframe s = DataFrame ?data (cells first)"
      using md_unfold [OF l] by simp
    from np have "\<forall>r\<in>set ?data. length r = 1"
      by (auto simp: cells_no_pipe)
    with ne have w: "width ?data = 1"
      by (intro width_singletons) auto
    from ne h w show ?thesis
      unfolding m by (simp add: DataFrame_def)
  qed
  from collected fails show ?thesis by blast
qed

theorem no_stop_at_table_end_witness:
  "markdown_to_dataframe
     (S ''| Name | Years |\<newline>|---|---|\<newline>| Bob | 3 |\<newline>\<newline>Two | more\<newline>'') =
     Inr \<lparr>columns = [S ''Name'', S ''Years''],
          rows = [[Some (S ''Bob''), Some (S ''3'')], [Some [], None],
                  [Some (S ''Two''), Some (S ''more'')]]\<rparr> \<and>
   length (str_split LF
     (strip (S ''| Name | Years |\<newline>|---|---|\<newline>| Bob | 3 |\<newline>\<newline>Two | more\<newline>''))) = 5 \<and>
   length [[Some (S ''Bob''), Some (S ''3'')], [Some [], None],
           [Some (S ''Two''), Some (S ''more'')]] = 5 - 2 \<and>
   str_split LF (strip (S ''| Name | Years |\<newline>|---|---|\<newline>No candidates found.'')) =
     [S ''| Name | Years |'', S ''|---|---|'', S ''No candidates found.''] \<and>
   \<not> pipe_delimited (S ''No candidates found.'') \<and>
   markdown_to_dataframe (S ''| Name | Years |\<newline>|---|---|\<newline>No candidates found.'') =
     Inl (ValueError 2 1)"
proof -
  let ?a = "S ''| Name | Years |\<newline>|---|---|\<newline>| Bob | 3 |\<newline>\<newline>Two | more\<newline>''"
  let ?t = "\<lparr>columns = [S ''Name'', S ''Years''],
          rows = [[Some (S ''Bob''), Some (S ''3'')], [Some [], None],
                  [Some (S ''Two''), Some (S ''more'')]]\<rparr>"
  let ?b = "S ''| Name | Years |\<newline>|---|---|\<newline>No candidates found.''"
  have t: "markdown_to_dataframe ?a = Inr ?t"
    by (simp add: parser_eval)
  have n: "length (str_split LF (strip ?a)) = 5"
    by (simp add: strip_def strip_where_def isspace_def LF_def)
  have rows: "length [[Some (S ''Bob''), Some (S ''3'')], [Some [], None],
           [Some (S ''Two''), Some (S ''more'')]] = 5 - 2"
    using no_stop_at_table_end [where s = ?a and t = ?t, THEN conjunct1, THEN mp, OF t,
        THEN conjunct1]
    unfolding n by simp
  have l: "str_split LF (strip ?b) =
      [S ''| Name | Years |'', S ''|---|---|'', S ''No candidates found.'']"
    by (simp add: strip_def strip_where_def isspace_def LF_def)
  have p: "\<not> pipe_delimited (S ''No candidates found.'')"
    by (simp add: pipe_delimited_def strip_def strip_where_def isspace_def pipe_def)
  have e: "markdown_to_dataframe ?b = Inl (ValueError 2 1)"
    using no_stop_at_table_end [where s = ?b and first = "S ''| Name | Years |''"
        and second = "S ''|---|---|''" and data_lines = "[S ''No candidates found.'']"] l
    by (simp add: cells_eval)
  from t n rows l p e show ?thesis by blast
qed

theorem table_end_counterexample:
  "str_split LF (strip (S ''| Name | Years |\<newline>|---|---|\<newline>| Alice | 5 |\<newline>\<newline>Notes'')) =
     [S ''| Name | Years |'', S ''|---|---|'', S ''| Alice | 5 |'', [], S ''Notes''] \<and>
   \<not> pipe_delimited (S ''Notes'') \<and>
   markdown_to_dataframe (S ''| Name | Years |\<newline>|---|---|\<newline>| Alice | 5 |\<newline>\<newline>Notes'') =
     Inr \<lparr>columns = [S ''Name'', S ''Years''],
          rows = [[Some (S ''Alice''), Some (S ''5'')], [Some [], None],
                  [Some (S ''Notes''), None]]\<rparr>"
  by (simp add: parser_eval pipe_delimited_def)

section \<open>Facts about the extraction loop and the prompt\<close>

lemma extract_success_silent:
  "snd (extract_text_from_pdf p) = Some t \<Longrightarrow> extract_text_from_pdf p = ([], Some t)"
  by (auto simp: extract_text_from_pdf_def split: sum.splits)

lemma extraction_loop_eq:
  "extraction_loop files acc =
     (concat (map file_events files), acc @ concat (map contribution files))"
proof (induction files arbitrary: acc)
  case Nil
  then show ?case by simp
next
  case (Cons f files)
  obtain shown got where e: "extract_text_from_pdf (getvalue f) = (shown, got)"
    by (cases "extract_text_from_pdf (getvalue f)")
  show ?case
    by (cases got) (simp_all add: e Cons.IH contribution_def file_events_def)
qed





lemma join_adjacent:
  "Suc i < length xs \<Longrightarrow>
   \<exists>before after. join sep xs = before @ xs ! i @ sep @ xs ! Suc i @ after"
proof (induction xs arbitrary: i)
  case Nil
  then show ?case by simp
next
  case (Cons x xs)
  then obtain y ys where xs: "xs = y # ys" by (cases xs) auto
  show ?case
  proof (cases i)
    case 0
    have "join sep (x # xs) = [] @ x @ sep @ y @ (if ys = [] then [] else sep @ join sep ys)"
      unfolding xs by (simp add: join_Cons)
    with 0 xs show ?thesis by (metis nth_Cons_0 nth_Cons_Suc)
  next
    case (Suc j)
    with Cons.prems have "Suc j < length xs" by simp
    from Cons.IH [OF this] obtain b a where
      "join sep xs = b @ xs ! j @ sep @ xs ! Suc j @ a" by blast
    then have "join sep (x # xs) = (x @ sep @ b) @ xs ! j @ sep @ xs ! Suc j @ a"
      unfolding xs by simp
    with Suc show ?thesis by (metis nth_Cons_Suc)
  qed
qed



lemmas loop_eval =
  extraction_loop_eq file_events_def contribution_def extract_text_from_pdf_def
  skip_warning_def

section \<open>The prompt builder\<close>

text \<open>
  Claim C7. For a list of resume texts that is not empty, \<open>generate_table_from_resumes\<close>
  sends one prompt: the fixed text of the template, the resume texts joined by the
  separator, and the fixed end of the template. In the joined text every two consecutive
  resume texts stand next to each other with exactly the separator between them, the
  first resume text is at the start and the last at the end. The fixed text is, in this
  order: the request for a Markdown table of the candidates; the sentence that the table
  should have the following columns, which lists between double quotes the six names
  Name, Age / DOB, Years of Experience, Specialization / JD, Key Skills / Certifications
  and Other Details; the request to extract the information accurately; the sentence that
  tells to write, between double quotes, Not specified if a piece of information is not
  found; and the heading of the resume texts. Nothing else in it is between double
  quotes, and the end of the template is a line break and four spaces.
\<close>

theorem prompt_builder:
  assumes "resume_texts \<noteq> []"
  shows "fst (generate_table_from_resumes model resume_texts) =
           [GenerateContent
              (prompt_head @
               join (S ''\<newline>\<newline>--- NEW RESUME ---\<newline>\<newline>'') resume_texts @
               prompt_tail)] \<and>
         (\<forall>i. Suc i < length resume_texts \<longrightarrow>
            (\<exists>before after.
               join (S ''\<newline>\<newline>--- NEW RESUME ---\<newline>\<newline>'') resume_texts =
                 before @ resume_texts ! i @ S ''\<newline>\<newline>--- NEW RESUME ---\<newline>\<newline>'' @
                 resume_texts ! Suc i @ after)) \<and>
         (\<exists>after. join (S ''\<newline>\<newline>--- NEW RESUME ---\<newline>\<newline>'') resume_texts =
            hd resume_texts @ after) \<and>
         (\<exists>before. join (S ''\<newline>\<newline>--- NEW RESUME ---\<newline>\<newline>'') resume_texts =
            before @ last resume_texts) \<and>
         quoted_parts prompt_head =
           [S ''Name'', S ''Age / DOB'', S ''Years of Experience'', S ''Specialization / JD'',
            S ''Key Skills / Certifications'', S ''Other Details'', S ''Not specified''] \<and>
         quoted_parts prompt_tail = [] \<and>
         prompt_head =
           S ''\<newline>    Based on the following resume texts, create a Markdown table summarizing the key information for each candidate.\<newline>    '' @
           (S ''The table should have the following columns: '' @
            join (S '', '')
              (map dq [S ''Name'', S ''Age / DOB'', S ''Years of Experience'',
                       S ''Specialization / JD'', S ''Key Skills / Certifications'']) @
            S '', and '' @ dq (S ''Other Details'') @ S ''.'') @
           S ''\<newline>    Extract the information as accurately as possible. '' @
           (S ''If a piece of information is not found, write '' @ dq (S ''Not specified'') @
            S ''.'') @
           S ''\<newline>\<newline>    Resume Texts:\<newline>    '' \<and>
         prompt_tail = S ''\<newline>    ''"
proof -
  let ?sep = "S ''\<newline>\<newline>--- NEW RESUME ---\<newline>\<newline>''"
  have sep: "separator = ?sep"
    by (simp only: separator_def)
  have sent: "fst (generate_table_from_resumes model resume_texts) =
      [GenerateContent (prompt_head @ join ?sep resume_texts @ prompt_tail)]"
    using assms unfolding sep [symmetric]
    by (simp add: generate_table_from_resumes_def prompt_template_def Let_def split: sum.splits)
  have adjacent: "\<forall>i. Suc i < length resume_texts \<longrightarrow>
      (\<exists>before after. join ?sep resume_texts =
         before @ resume_texts ! i @ ?sep @ resume_texts ! Suc i @ after)"
    using join_adjacent [of _ resume_texts ?sep] by blast
  obtain x xs where front: "resume_texts = x # xs"
    using assms by (cases resume_texts) auto
  obtain ys y where rear: "resume_texts = ys @ [y]"
    using assms by (cases resume_texts rule: rev_cases) auto
  have first: "\<exists>after. join ?sep resume_texts = hd resume_texts @ after"
    unfolding front by (simp only: join_Cons list.sel) blast
  have final: "\<exists>before. join ?sep resume_texts = before @ last resume_texts"
    unfolding rear by (simp only: join_snoc last_snoc) blast
  have names: "quoted_parts prompt_head =
           [S ''Name'', S ''Age / DOB'', S ''Years of Experience'', S ''Specialization / JD'',
            S ''Key Skills / Certifications'', S ''Other Details'', S ''Not specified'']"
    by (simp add: quoted_parts_def prompt_head_def dq_def)
  have none: "quoted_parts prompt_tail = []"
    by (simp add: quoted_parts_def prompt_tail_def)
  have template: "prompt_head =
           S ''\<newline>    Based on the following resume texts, create a Markdown table summarizing the key information for each candidate.\<newline>    '' @
           (S ''The table should have the following columns: '' @
            join (S '', '')
              (map dq [S ''Name'', S ''Age / DOB'', S ''Years of Experience'',
                       S ''Specialization / JD'', S ''Key Skills / Certifications'']) @
            S '', and '' @ dq (S ''Other Details'') @ S ''.'') @
           S ''\<newline>    Extract the information as accurately as possible. '' @
           (S ''If a piece of information is not found, write '' @ dq (S ''Not specified'') @
            S ''.'') @
           S ''\<newline>\<newline>    Resume Texts:\<newline>    ''"
    by (simp add: prompt_head_def dq_def)
  have ending: "prompt_tail = S ''\<newline>    ''"
    by (simp add: prompt_tail_def)
  show ?thesis
    by (intro conjI) (rule sent adjacent first final names none template ending)+
qed

theorem prompt_builder_witness:
  "[S ''Alice, engineer'', S ''Bob, analyst''] \<noteq> [] \<and>
   fst (generate_table_from_resumes (\<lambda>prompt. Inr (S ''| Name |''))
          [S ''Alice, engineer'', S ''Bob, analyst'']) =
     [GenerateContent
        (prompt_head @
         S ''Alice, engineer\<newline>\<newline>--- NEW RESUME ---\<newline>\<newline>Bob, analyst'' @
         prompt_tail)] \<and>
   (\<exists>before after.
      join (S ''\<newline>\<newline>--- NEW RESUME ---\<newline>\<newline>'')
        [S ''Alice, engineer'', S ''Bob, analyst''] =
      before @ S ''Alice, engineer'' @ S ''\<newline>\<newline>--- NEW RESUME ---\<newline>\<newline>'' @
      S ''Bob, analyst'' @ after)"
proof -
  let ?texts = "[S ''Alice, engineer'', S ''Bob, analyst'']"
  let ?sep = "S ''\<newline>\<newline>--- NEW RESUME ---\<newline>\<newline>''"
  have ne: "?texts \<noteq> []"
    by simp
  note inst = prompt_builder [OF ne, of "\<lambda>prompt. Inr (S ''| Name |'')"]
  from inst have sent: "fst (generate_table_from_resumes (\<lambda>prompt. Inr (S ''| Name |'')) ?texts) =
      [GenerateContent (prompt_head @ join ?sep ?texts @ prompt_tail)]"
    by blast
  from inst have all: "\<forall>i. Suc i < length ?texts \<longrightarrow>
      (\<exists>before after. join ?sep ?texts =
         before @ ?texts ! i @ ?sep @ ?texts ! Suc i @ after)"
    by blast
  from spec [OF all, of 0] have adjacent: "\<exists>before after. join ?sep ?texts =
      before @ S ''Alice, engineer'' @ ?sep @ S ''Bob, analyst'' @ after"
    by simp
  from sent have "fst (generate_table_from_resumes (\<lambda>prompt. Inr (S ''| Name |'')) ?texts) =
      [GenerateContent
        (prompt_head @
         S ''Alice, engineer\<newline>\<newline>--- NEW RESUME ---\<newline>\<newline>Bob, analyst'' @
         prompt_tail)]"
    by simp
  with ne adjacent show ?thesis by blast
qed

section \<open>The orchestration\<close>






text \<open>
  Claim C10. A file whose extraction succeeds with the empty text is treated by the loop
  as a file whose extraction fails: it adds nothing to the collected texts, the loop
  shows the warning that the file is skipped, and the files after it are processed. Put
  in its place a file of the same name whose extraction fails: the collected texts are
  the same, and the loop shows the same, but for the error the extractor itself shows
  before it returns.
\<close>

theorem empty_text_is_skipped:
  assumes "snd (extract_text_from_pdf (getvalue f)) = Some []"
  shows "extraction_loop (before @ f # after) [] =
           (fst (extraction_loop before []) @
            Info (S ''Processing: `'' @ name f @ S ''`'') # skip_warning (name f) #
            fst (extraction_loop after []),
            snd (extraction_loop before []) @ snd (extraction_loop after [])) \<and>
         (\<forall>g. name g = name f \<and> snd (extract_text_from_pdf (getvalue g)) = None \<longrightarrow>
            snd (extraction_loop (before @ g # after) []) =
              snd (extraction_loop (before @ f # after) []) \<and>
            fst (extraction_loop (before @ g # after) []) =
              fst (extraction_loop before []) @
              Info (S ''Processing: `'' @ name f @ S ''`'') #
              fst (extract_text_from_pdf (getvalue g)) @
              skip_warning (name f) # fst (extraction_loop after []))"
proof -
  from assms have s: "extract_text_from_pdf (getvalue f) = ([], Some [])"
    by (rule extract_success_silent)
  then have c: "contribution f = []"
    by (simp add: contribution_def)
  have own: "extraction_loop (before @ f # after) [] =
      (fst (extraction_loop before []) @
       Info (S ''Processing: `'' @ name f @ S ''`'') # skip_warning (name f) #
       fst (extraction_loop after []),
       snd (extraction_loop before []) @ snd (extraction_loop after []))"
    by (simp add: extraction_loop_eq file_events_def c s)
  have like: "snd (extraction_loop (before @ g # after) []) =
        snd (extraction_loop (before @ f # after) []) \<and>
      fst (extraction_loop (before @ g # after) []) =
        fst (extraction_loop before []) @
        Info (S ''Processing: `'' @ name f @ S ''`'') #
        fst (extract_text_from_pdf (getvalue g)) @
        skip_warning (name f) # fst (extraction_loop after [])"
    if "name g = name f" "snd (extract_text_from_pdf (getvalue g)) = None" for g
  proof -
    from that(2) have "contribution g = []"
      by (simp add: contribution_def)
    with that(1) c show ?thesis
      by (simp add: extraction_loop_eq file_events_def)
  qed
  from own like show ?thesis by blast
qed

theorem empty_text_is_skipped_witness:
  "snd (extract_text_from_pdf (Inr [Inr [], Inr []])) = Some [] \<and>
   extraction_loop
     [\<lparr>name = S ''a.pdf'', getvalue = Inr [Inr (S ''Alice'')]\<rparr>,
      \<lparr>name = S ''scan.pdf'', getvalue = Inr [Inr [], Inr []]\<rparr>,
      \<lparr>name = S ''c.pdf'', getvalue = Inr [Inr (S ''Carol'')]\<rparr>] [] =
     ([Info (S ''Processing: `a.pdf`''),
       Info (S ''Processing: `scan.pdf`''),
       Warning (S ''Could not extract text from `scan.pdf`. Skipping.''),
       Info (S ''Processing: `c.pdf`'')],
      [S ''Alice'', S ''Carol'']) \<and>
   snd (extraction_loop
     [\<lparr>name = S ''a.pdf'', getvalue = Inr [Inr (S ''Alice'')]\<rparr>,
      \<lparr>name = S ''scan.pdf'', getvalue = Inl (S ''EOF marker not found'')\<rparr>,
      \<lparr>name = S ''c.pdf'', getvalue = Inr [Inr (S ''Carol'')]\<rparr>] []) =
     [S ''Alice'', S ''Carol'']"
proof -
  let ?a = "\<lparr>name = S ''a.pdf'', getvalue = Inr [Inr (S ''Alice'')]\<rparr>"
  let ?f = "\<lparr>name = S ''scan.pdf'', getvalue = Inr [Inr [], Inr []]\<rparr>"
  let ?g = "\<lparr>name = S ''scan.pdf'', getvalue = Inl (S ''EOF marker not found'')\<rparr>"
  let ?c = "\<lparr>name = S ''c.pdf'', getvalue = Inr [Inr (S ''Carol'')]\<rparr>"
  have empty: "snd (extract_text_from_pdf (getvalue ?f)) = Some []"
    by (simp add: extract_text_from_pdf_def)
  have fails: "name ?g = name ?f \<and> snd (extract_text_from_pdf (getvalue ?g)) = None"
    by (simp add: extract_text_from_pdf_def)
  have a: "extraction_loop [?a] [] = ([Info (S ''Processing: `a.pdf`'')], [S ''Alice''])"
    by (simp add: loop_eval)
  have c: "extraction_loop [?c] [] = ([Info (S ''Processing: `c.pdf`'')], [S ''Carol''])"
    by (simp add: loop_eval)
  note inst = empty_text_is_skipped [OF empty, of "[?a]" "[?c]"]
  from inst have own: "extraction_loop ([?a] @ ?f # [?c]) [] =
      ([Info (S ''Processing: `a.pdf`'')] @
       Info (S ''Processing: `'' @ name ?f @ S ''`'') # skip_warning (name ?f) #
       [Info (S ''Processing: `c.pdf`'')],
       [S ''Alice''] @ [S ''Carol''])"
    unfolding a c fst_conv snd_conv by blast
  from inst fails have "snd (extraction_loop ([?a] @ ?g # [?c]) []) =
      snd (extraction_loop ([?a] @ ?f # [?c]) [])"
    by blast
  then have like: "snd (extraction_loop ([?a] @ ?g # [?c]) []) = [S ''Alice''] @ [S ''Carol'']"
    unfolding own snd_conv .
  from empty own like show ?thesis
    by (simp add: skip_warning_def)
qed

end
